theory Spec2Isabelle
  imports Complex_Main "HOL-Library.AList" "HOL-Library.Sublist" "HOL-Library.Char_ord"
    "HOL-Library.List_Lexorder"
begin

section \<open>Python values and exceptions\<close>

text \<open>
  The module \<^verbatim>\<open>sonarqube/issues.py\<close> runs under Python 3 (its first line is
  \<^verbatim>\<open>#!/usr/local/bin/python3\<close>, and its classes call \<^verbatim>\<open>super().__init__\<close>
  without arguments). Every exception the modelled code can raise is a value of
  \<open>error\<close>; a computation that may raise returns \<open>error + 'a\<close>, with \<open>Inl\<close> for
  the exception.
\<close>

datatype error =
  KeyError string
  | AttributeError string
  | TypeError string
  | OverflowError

text \<open>
  A JSON object with string values (one field-level diff of a changelog entry) is a
  partial map from keys to values. \<open>subscript d k\<close> is Python's \<^verbatim>\<open>d[k]\<close>, which
  raises \<^verbatim>\<open>KeyError\<close> on a missing key; \<open>in_dict k d\<close> is \<^verbatim>\<open>k in d\<close>.
\<close>

type_synonym diff = "string \<rightharpoonup> string"

definition subscript :: "diff \<Rightarrow> string \<Rightarrow> error + string" where
  "subscript d k = (case d k of None \<Rightarrow> Inl (KeyError k) | Some v \<Rightarrow> Inr v)"

definition in_dict :: "string \<Rightarrow> diff \<Rightarrow> bool" where
  "in_dict k d = (d k \<noteq> None)"

section \<open>Diff normalizer\<close>

text \<open>
  The dictionary \<^verbatim>\<open>{'event': e, 'value': v}\<close> that the normalizer returns; \<open>val\<close> is
  the source's \<^verbatim>\<open>'value'\<close>, \<open>None\<close> for Python's \<^verbatim>\<open>None\<close>.
\<close>

record change =
  event :: string
  val :: "string option"

definition resolution_diff_to_changelog :: "string \<Rightarrow> change" where
  "resolution_diff_to_changelog newval =
     (if newval = ''FALSE-POSITIVE'' then \<lparr>event = ''transition'', val = Some ''falsepositive''\<rparr>
      else if newval = ''WONTFIX'' then \<lparr>event = ''transition'', val = Some ''wontfix''\<rparr>
      else if newval = ''FIXED'' then \<lparr>event = ''fixed'', val = None\<rparr>
      else \<lparr>event = ''unknown'', val = None\<rparr>)"

definition reopen_diff_to_changelog :: "string \<Rightarrow> change" where
  "reopen_diff_to_changelog oldval =
     (if oldval = ''CONFIRMED'' then \<lparr>event = ''transition'', val = Some ''unconfirm''\<rparr>
      else \<lparr>event = ''transition'', val = Some ''reopen''\<rparr>)"

text \<open>
  \<^verbatim>\<open>if d['newValue'] in d:\<close> looks the \<^emph>\<open>value\<close> of \<^verbatim>\<open>newValue\<close> up among the keys
  of the diff.
\<close>

definition assignee_diff_to_changelog :: "diff \<Rightarrow> error + change" where
  "assignee_diff_to_changelog d =
     (case subscript d ''newValue'' of
        Inl e \<Rightarrow> Inl e
      | Inr nv \<Rightarrow>
          if in_dict nv d then Inr \<lparr>event = ''assign'', val = Some nv\<rparr>
          else Inr \<lparr>event = ''unassign'', val = None\<rparr>)"

text \<open>
  \<^verbatim>\<open>'{0} -> {1}'.format(old, new)\<close>.
\<close>

definition format_arrow :: "string \<Rightarrow> string \<Rightarrow> string" where
  "format_arrow old new = old @ '' -> '' @ new"

text \<open>
  \<^verbatim>\<open>get_event_from_diff\<close> reads \<^verbatim>\<open>diff['key']\<close> and \<^verbatim>\<open>diff['newValue']\<close>
  first, then runs its \<^verbatim>\<open>if\<close> statements one after the other; each may overwrite
  \<^verbatim>\<open>event\<close>. \<open>ev_status_reopened\<close>, \<open>ev_status_open\<close>, \<open>ev_assignee\<close>,
  \<open>ev_branch\<close> and \<open>ev_effort\<close> are the statements that index the diff again and so
  may raise.
\<close>

definition ev_status_reopened :: "diff \<Rightarrow> string \<Rightarrow> string \<Rightarrow> change option \<Rightarrow> error + change option" where
  "ev_status_reopened diff dkey dnewval ev =
     (if dkey = ''status'' \<and> in_dict ''newValue'' diff \<and> dnewval = ''REOPENED''
      then (case subscript diff ''oldValue'' of
              Inl e \<Rightarrow> Inl e
            | Inr ov \<Rightarrow> Inr (Some (reopen_diff_to_changelog ov)))
      else Inr ev)"

definition ev_status_open :: "diff \<Rightarrow> string \<Rightarrow> string \<Rightarrow> change option \<Rightarrow> error + change option" where
  "ev_status_open diff dkey dnewval ev =
     (if dkey = ''status'' \<and> in_dict ''newValue'' diff \<and> dnewval = ''OPEN''
      then (case subscript diff ''oldValue'' of
              Inl e \<Rightarrow> Inl e
            | Inr ov \<Rightarrow>
                Inr (if ov = ''CLOSED''
                     then Some \<lparr>event = ''transition'', val = Some ''reopen''\<rparr> else ev))
      else Inr ev)"

definition ev_assignee :: "diff \<Rightarrow> string \<Rightarrow> change option \<Rightarrow> error + change option" where
  "ev_assignee diff dkey ev =
     (if dkey = ''assignee''
      then (case assignee_diff_to_changelog diff of Inl e \<Rightarrow> Inl e | Inr c \<Rightarrow> Inr (Some c))
      else Inr ev)"

definition ev_branch :: "diff \<Rightarrow> string \<Rightarrow> string \<Rightarrow> change option \<Rightarrow> error + change option" where
  "ev_branch diff dkey dnewval ev =
     (if dkey = ''from_short_branch''
      then (case subscript diff ''oldValue'' of
              Inl e \<Rightarrow> Inl e
            | Inr ov \<Rightarrow> Inr (Some \<lparr>event = ''merge'', val = Some (format_arrow ov dnewval)\<rparr>))
      else Inr ev)"

definition ev_effort :: "diff \<Rightarrow> string \<Rightarrow> string \<Rightarrow> change option \<Rightarrow> error + change option" where
  "ev_effort diff dkey dnewval ev =
     (if dkey = ''effort''
      then (case subscript diff ''oldValue'' of
              Inl e \<Rightarrow> Inl e
            | Inr ov \<Rightarrow> Inr (Some \<lparr>event = ''effort'', val = Some (format_arrow ov dnewval)\<rparr>))
      else Inr ev)"

definition get_event_from_diff :: "diff \<Rightarrow> error + change option" where
  "get_event_from_diff diff =
     (case subscript diff ''key'' of
        Inl e \<Rightarrow> Inl e
      | Inr dkey \<Rightarrow>
     (case subscript diff ''newValue'' of
        Inl e \<Rightarrow> Inl e
      | Inr dnewval \<Rightarrow>
     (let ev0 = None;
          ev1 = (if dkey = ''severity'' \<or> dkey = ''type'' \<or> dkey = ''tags''
                 then Some \<lparr>event = dkey, val = Some dnewval\<rparr> else ev0);
          ev2 = (if dkey = ''resolution'' \<and> in_dict ''newValue'' diff
                 then Some (resolution_diff_to_changelog dnewval) else ev1);
          ev3 = (if dkey = ''status'' \<and> in_dict ''newValue'' diff \<and> dnewval = ''CONFIRMED''
                 then Some \<lparr>event = ''transition'', val = Some ''confirm''\<rparr> else ev2)
      in case ev_status_reopened diff dkey dnewval ev3 of Inl e \<Rightarrow> Inl e | Inr ev4 \<Rightarrow>
        (case ev_status_open diff dkey dnewval ev4 of Inl e \<Rightarrow> Inl e | Inr ev5 \<Rightarrow>
        (case ev_assignee diff dkey ev5 of Inl e \<Rightarrow> Inl e | Inr ev6 \<Rightarrow>
        (case ev_branch diff dkey dnewval ev6 of Inl e \<Rightarrow> Inl e | Inr ev7 \<Rightarrow>
         ev_effort diff dkey dnewval ev7))))))"

text \<open>
  \<^verbatim>\<open>diff_to_changelog\<close>: the first diff for which \<^verbatim>\<open>get_event_from_diff\<close> returns an
  event decides; an exception raised on the way propagates.
\<close>

fun diff_to_changelog :: "diff list \<Rightarrow> error + change" where
  "diff_to_changelog [] = Inr \<lparr>event = ''unknown'', val = None\<rparr>"
| "diff_to_changelog (d # ds) =
     (case get_event_from_diff d of
        Inl e \<Rightarrow> Inl e
      | Inr (Some ev) \<Rightarrow> Inr ev
      | Inr None \<Rightarrow> diff_to_changelog ds)"

section \<open>Issues, their caches and the server\<close>

text \<open>
  One entry of \<^verbatim>\<open>data['changelog']\<close> as the server returns it, and one element of
  \<^verbatim>\<open>self.json['comments']\<close>.
\<close>

record log_entry =
  creationDate :: string
  diffs :: "diff list"

record comment =
  createdAt :: string
  markdown :: string

text \<open>
  A changelog or comment event as the module stores it:
  \<^verbatim>\<open>{'date': ..., 'event': ..., 'value': ...}\<close>.
\<close>

record entry = change +
  date :: string

text \<open>
  Python lists are objects: \<^verbatim>\<open>get_changelog\<close> returns the list held in
  \<^verbatim>\<open>self.changelog\<close> itself, not a copy, and \<^verbatim>\<open>get_all_events\<close> appends to
  what it was given. The lists that \<^verbatim>\<open>Issue.changelog\<close> refers to therefore live in a
  store, \<open>lists\<close>, and the field holds a reference. \<^verbatim>\<open>Issue.comments\<close> is only read
  once \<^verbatim>\<open>get_comments\<close> has built it, so it is kept by value. \<open>json_comments\<close> is
  \<^verbatim>\<open>self.json['comments']\<close>, \<open>None\<close> when the key is absent from the record the
  issue was fed with. \<open>itype\<close> is the field \<^verbatim>\<open>type\<close>. \<open>env\<close> stands for the
  environment object \<^verbatim>\<open>self.env\<close> the issue sends its requests to, identified by
  its \<^verbatim>\<open>get_url()\<close>. The field \<^verbatim>\<open>url\<close> only caches what \<^verbatim>\<open>get_url\<close> computes from
  \<^verbatim>\<open>env\<close>, \<^verbatim>\<open>component\<close> and \<^verbatim>\<open>key\<close>, and is left out.
\<close>

type_synonym ref = nat

record issue =
  env :: string
  key :: string
  itype :: string
  severity :: "string option"
  status :: string
  rule :: string
  project :: string
  component :: string
  hash :: "string option"
  message :: "string option"
  debt :: "string option"
  line :: "int option"
  creation_date :: string
  modification_date :: string
  json_comments :: "comment list option"
  changelog :: "ref option"
  comments :: "entry list option"

text \<open>
  A state-changing request \<^verbatim>\<open>self.post(endpoint, params)\<close>: the environment it
  is sent to, the endpoint, and the parameter dictionary in the order written.
\<close>

type_synonym params = "(string \<times> string option) list"

type_synonym request = "string \<times> string \<times> params"

text \<open>The two \<^verbatim>\<open>util.logger.error\<close> messages of \<^verbatim>\<open>apply_changelog\<close>.\<close>

datatype logmsg =
  CannotApplyToIssueWithChangelog
  | EventCannotBeApplied entry

text \<open>
  The state the module works on: the issue objects, the list objects, the next unused
  list reference, the requests posted so far and the error messages logged so far.
\<close>

record world =
  objs :: "ref \<Rightarrow> issue"
  lists :: "ref \<Rightarrow> entry list"
  fresh :: ref
  posted :: "request list"
  errors :: "logmsg list"

text \<open>
  The answer of an environment to \<^verbatim>\<open>GET issues/changelog\<close> for an issue key. It may
  depend on every request posted before; nothing else is assumed about it.
\<close>

type_synonym api = "request list \<Rightarrow> string \<Rightarrow> string \<Rightarrow> log_entry list"

definition post :: "ref \<Rightarrow> string \<Rightarrow> params \<Rightarrow> world \<Rightarrow> world" where
  "post self endpoint ps st = st\<lparr>posted := posted st @ [(env (objs st self), endpoint, ps)]\<rparr>"

definition logger_error :: "logmsg \<Rightarrow> world \<Rightarrow> world" where
  "logger_error m st = st\<lparr>errors := errors st @ [m]\<rparr>"

definition list_append :: "ref \<Rightarrow> entry \<Rightarrow> world \<Rightarrow> world" where
  "list_append r e st = st\<lparr>lists := (lists st)(r := lists st r @ [e])\<rparr>"

subsection \<open>\<^verbatim>\<open>get_changelog\<close>, \<^verbatim>\<open>has_changelog\<close>, \<^verbatim>\<open>get_comments\<close>\<close>

text \<open>
  The loop of \<^verbatim>\<open>get_changelog\<close> over \<^verbatim>\<open>data['changelog']\<close>. The list object \<open>r\<close>
  is already stored in \<^verbatim>\<open>self.changelog\<close> while it is filled, so an exception of
  \<^verbatim>\<open>diff_to_changelog\<close> leaves the entries appended so far in the cache.
\<close>

fun fill_changelog :: "ref \<Rightarrow> log_entry list \<Rightarrow> world \<Rightarrow> (error + unit) \<times> world" where
  "fill_changelog r [] st = (Inr (), st)"
| "fill_changelog r (l # ls) st =
     (case diff_to_changelog (diffs l) of
        Inl e \<Rightarrow> (Inl e, st)
      | Inr d \<Rightarrow>
          fill_changelog r ls
            (list_append r \<lparr>event = event d, val = val d, date = creationDate l\<rparr> st))"

text \<open>
  \<^verbatim>\<open>self.changelog = []\<close> allocates a new list object. The result is the value of
  \<^verbatim>\<open>self.changelog\<close> at the \<^verbatim>\<open>return\<close>.
\<close>

definition get_changelog :: "api \<Rightarrow> ref \<Rightarrow> bool \<Rightarrow> world \<Rightarrow> (error + ref option) \<times> world" where
  "get_changelog srv self force_api st =
     (if force_api \<or> changelog (objs st self) = None then
        (let data = srv (posted st) (env (objs st self)) (key (objs st self));
             r = fresh st;
             st1 = st\<lparr>objs := (objs st)(self := (objs st self)\<lparr>changelog := Some r\<rparr>),
                      lists := (lists st)(r := []),
                      fresh := Suc r\<rparr>
         in case fill_changelog r data st1 of
              (Inl e, st2) \<Rightarrow> (Inl e, st2)
            | (Inr u, st2) \<Rightarrow> (Inr (changelog (objs st2 self)), st2))
      else (Inr (changelog (objs st self)), st))"

text \<open>Python's \<^verbatim>\<open>len\<close> of the value \<^verbatim>\<open>get_changelog\<close> returned.\<close>

definition len :: "ref option \<Rightarrow> world \<Rightarrow> error + nat" where
  "len v st = (case v of None \<Rightarrow> Inl (TypeError ''len'') | Some r \<Rightarrow> Inr (length (lists st r)))"

text \<open>
  \<^verbatim>\<open>has_changelog\<close> calls \<^verbatim>\<open>get_changelog\<close> twice: once for the argument of its
  debug message, once for the result.
\<close>

definition has_changelog :: "api \<Rightarrow> ref \<Rightarrow> world \<Rightarrow> (error + bool) \<times> world" where
  "has_changelog srv self st =
     (case get_changelog srv self False st of
        (Inl e, st1) \<Rightarrow> (Inl e, st1)
      | (Inr c1, st1) \<Rightarrow>
     (case len c1 st1 of
        Inl e \<Rightarrow> (Inl e, st1)
      | Inr n1 \<Rightarrow>
     (case get_changelog srv self False st1 of
        (Inl e, st2) \<Rightarrow> (Inl e, st2)
      | (Inr c2, st2) \<Rightarrow>
     (case len c2 st2 of
        Inl e \<Rightarrow> (Inl e, st2)
      | Inr n2 \<Rightarrow> (Inr (n2 > 0), st2)))))"

definition comment_entry :: "comment \<Rightarrow> entry" where
  "comment_entry c = \<lparr>event = ''comment'', val = Some (markdown c), date = createdAt c\<rparr>"

definition get_comments :: "ref \<Rightarrow> world \<Rightarrow> entry list \<times> world" where
  "get_comments self st =
     (case json_comments (objs st self) of
        None \<Rightarrow> ([], st\<lparr>objs := (objs st)(self := (objs st self)\<lparr>comments := Some []\<rparr>)\<rparr>)
      | Some cs \<Rightarrow>
          (case comments (objs st self) of
             None \<Rightarrow>
               (map comment_entry cs,
                st\<lparr>objs := (objs st)(self := (objs st self)\<lparr>comments := Some (map comment_entry cs)\<rparr>)\<rparr>)
           | Some l \<Rightarrow> (l, st)))"

definition has_comments :: "ref \<Rightarrow> world \<Rightarrow> bool \<times> world" where
  "has_comments self st = (case get_comments self st of (cs, st1) \<Rightarrow> (length cs > 0, st1))"

subsection \<open>\<^verbatim>\<open>get_all_events\<close>\<close>

text \<open>
  The result of \<^verbatim>\<open>get_all_events\<close> is either the list \<^verbatim>\<open>events\<close> (a reference: the
  very object \<^verbatim>\<open>get_changelog\<close> returned) or the dictionary \<^verbatim>\<open>bydate\<close>. A Python
  dictionary keeps its keys in the order of their first insertion, and a later store
  under an existing key replaces the value in place: \<^const>\<open>AList.update\<close>.
\<close>

datatype all_events =
  EventList ref
  | ByDate "(string \<times> entry) list"

text \<open>
  \<^verbatim>\<open>for c in comments: events.append(c)\<close> and
  \<^verbatim>\<open>for e in events: bydate[e['date']] = e\<close>. The debug message of
  \<^verbatim>\<open>get_all_events\<close> takes \<^verbatim>\<open>len(events)\<close>, which raises \<^verbatim>\<open>TypeError\<close> on
  \<^verbatim>\<open>None\<close>.
\<close>

fun append_all :: "ref \<Rightarrow> entry list \<Rightarrow> world \<Rightarrow> world" where
  "append_all r [] st = st"
| "append_all r (c # cs) st = append_all r cs (list_append r c st)"

fun bydate_of :: "entry list \<Rightarrow> (string \<times> entry) list \<Rightarrow> (string \<times> entry) list" where
  "bydate_of [] bydate = bydate"
| "bydate_of (e # es) bydate = bydate_of es (AList.update (date e) e bydate)"

definition get_all_events :: "api \<Rightarrow> ref \<Rightarrow> bool \<Rightarrow> world \<Rightarrow> (error + all_events) \<times> world" where
  "get_all_events srv self is_sorted st =
     (case get_changelog srv self False st of
        (Inl e, st1) \<Rightarrow> (Inl e, st1)
      | (Inr events, st1) \<Rightarrow>
     (case events of
        None \<Rightarrow> (Inl (TypeError ''len''), st1)
      | Some r \<Rightarrow>
     (case get_comments self st1 of
        (cs, st2) \<Rightarrow>
          (let st3 = append_all r cs st2
           in if \<not> is_sorted then (Inr (EventList r), st3)
              else (Inr (ByDate (bydate_of (lists st3 r) [])), st3)))))"

subsection \<open>State-changing operations of an issue\<close>

definition get_url :: "issue \<Rightarrow> string" where
  "get_url i = env i @ ''/project/issues?id='' @ component i @ ''&issues='' @ key i"

definition add_comment :: "ref \<Rightarrow> string option \<Rightarrow> world \<Rightarrow> world" where
  "add_comment self c st =
     post self ''issues/add_comment'' [(''issue'', Some (key (objs st self))), (''text'', c)] st"

definition set_severity :: "ref \<Rightarrow> string option \<Rightarrow> world \<Rightarrow> world" where
  "set_severity self sev st =
     post self ''issues/set_severity'' [(''issue'', Some (key (objs st self))), (''severity'', sev)] st"

definition assign :: "ref \<Rightarrow> string option \<Rightarrow> world \<Rightarrow> world" where
  "assign self assignee st =
     post self ''issues/assign'' [(''issue'', Some (key (objs st self))), (''assignee'', assignee)] st"

definition set_tags :: "ref \<Rightarrow> string option \<Rightarrow> world \<Rightarrow> world" where
  "set_tags self tags st =
     post self ''issues/set_tags'' [(''issue'', Some (key (objs st self))), (''tags'', tags)] st"

definition set_type :: "ref \<Rightarrow> string option \<Rightarrow> world \<Rightarrow> world" where
  "set_type self new_type st =
     post self ''issues/set_type'' [(''issue'', Some (key (objs st self))), (''type'', new_type)] st"

definition do_transition :: "ref \<Rightarrow> string \<Rightarrow> world \<Rightarrow> world" where
  "do_transition self transition st =
     post self ''issues/do_transition''
       [(''issue'', Some (key (objs st self))), (''transition'', Some transition)] st"

definition reopen :: "ref \<Rightarrow> world \<Rightarrow> world" where
  "reopen self st = do_transition self ''reopen'' st"

definition mark_as_false_positive :: "ref \<Rightarrow> world \<Rightarrow> world" where
  "mark_as_false_positive self st = do_transition self ''falsepositive'' st"

definition mark_as_wont_fix :: "ref \<Rightarrow> world \<Rightarrow> world" where
  "mark_as_wont_fix self st = do_transition self ''wontfix'' st"

definition is_hotspot :: "issue \<Rightarrow> bool" where
  "is_hotspot i = (itype i = ''SECURITY_HOTSPOT'')"

definition is_vulnerability :: "issue \<Rightarrow> bool" where
  "is_vulnerability i = (itype i = ''VULNERABILITY'')"

definition mark_as_reviewed :: "ref \<Rightarrow> world \<Rightarrow> world" where
  "mark_as_reviewed self st =
     (if is_hotspot (objs st self) then do_transition self ''resolveasreviewed'' st
      else if is_vulnerability (objs st self) then
        add_comment self
          (Some ''Vulnerability marked as won't fix to replace hotspot 'reviewed' status'')
          (do_transition self ''wontfix'' st)
      else st)"

subsection \<open>\<^verbatim>\<open>apply_changelog\<close>\<close>

definition is_event_a_comment :: "entry \<Rightarrow> bool" where
  "is_event_a_comment e = (event e = ''comment'')"

definition is_event_an_assignment :: "entry \<Rightarrow> bool" where
  "is_event_an_assignment e = (event e = ''assign'')"

definition is_event_a_resolve_as_fp :: "entry \<Rightarrow> bool" where
  "is_event_a_resolve_as_fp e = (event e = ''transition'' \<and> val e = Some ''falsepositive'')"

definition is_event_a_resolve_as_wf :: "entry \<Rightarrow> bool" where
  "is_event_a_resolve_as_wf e = (event e = ''transition'' \<and> val e = Some ''wontfix'')"

definition is_event_a_resolve_as_reviewed :: "entry \<Rightarrow> bool" where
  "is_event_a_resolve_as_reviewed e = False"

definition is_event_a_severity_change :: "entry \<Rightarrow> bool" where
  "is_event_a_severity_change e = (event e = ''severity'')"

definition is_event_a_reopen :: "entry \<Rightarrow> bool" where
  "is_event_a_reopen e = (event e = ''transition'' \<and> val e = Some ''reopen'')"

definition is_event_a_type_change :: "entry \<Rightarrow> bool" where
  "is_event_a_type_change e = (event e = ''type'')"

definition is_event_a_tag_change :: "entry \<Rightarrow> bool" where
  "is_event_a_tag_change e = (event e = ''tags'')"

text \<open>\<^verbatim>\<open>s.replace(' ', ',')\<close>.\<close>

definition replace_space_comma :: "string \<Rightarrow> string" where
  "replace_space_comma s = map (\<lambda>c. if c = CHR '' '' then CHR '','' else c) s"

text \<open>
  The body of the replay loop: the \<^verbatim>\<open>if\<close>/\<^verbatim>\<open>elif\<close> chain that maps one event to
  one operation on the target. \<^verbatim>\<open>event['value'].replace\<close> raises
  \<^verbatim>\<open>AttributeError\<close> when the value is \<^verbatim>\<open>None\<close>.
\<close>

definition apply_event :: "ref \<Rightarrow> entry \<Rightarrow> world \<Rightarrow> (error + unit) \<times> world" where
  "apply_event target_issue e st =
     (if is_event_a_severity_change e then (Inr (), set_severity target_issue (val e) st)
      else if is_event_a_type_change e then (Inr (), set_type target_issue (val e) st)
      else if is_event_a_reopen e then (Inr (), reopen target_issue st)
      else if is_event_a_resolve_as_fp e then (Inr (), mark_as_false_positive target_issue st)
      else if is_event_a_resolve_as_wf e then (Inr (), mark_as_wont_fix target_issue st)
      else if is_event_a_resolve_as_reviewed e then (Inr (), mark_as_reviewed target_issue st)
      else if is_event_an_assignment e then (Inr (), assign target_issue (val e) st)
      else if is_event_a_tag_change e then
        (case val e of
           None \<Rightarrow> (Inl (AttributeError ''replace''), st)
         | Some v \<Rightarrow> (Inr (), set_tags target_issue (Some (replace_space_comma v)) st))
      else if is_event_a_comment e then (Inr (), add_comment target_issue (val e) st)
      else (Inr (), logger_error (EventCannotBeApplied e) st))"

text \<open>
  \<^verbatim>\<open>for d in keys: event = events[d]; ...\<close> over the sorted keys.
\<close>

fun replay :: "ref \<Rightarrow> (string \<times> entry) list \<Rightarrow> string list \<Rightarrow> world \<Rightarrow> (error + unit) \<times> world" where
  "replay target_issue events [] st = (Inr (), st)"
| "replay target_issue events (d # ds) st =
     (case map_of events d of
        None \<Rightarrow> (Inl (KeyError d), st)
      | Some e \<Rightarrow>
          (case apply_event target_issue e st of
             (Inl err, st1) \<Rightarrow> (Inl err, st1)
           | (Inr u, st1) \<Rightarrow> replay target_issue events ds st1))"

text \<open>
  \<^verbatim>\<open>events.iterkeys()\<close>: a Python 3 dictionary has no method \<^verbatim>\<open>iterkeys\<close> (it went
  with Python 2), and a list never had one, so the attribute lookup raises
  \<^verbatim>\<open>AttributeError\<close> whatever \<^verbatim>\<open>events\<close> holds.
\<close>

definition iterkeys :: "all_events \<Rightarrow> error + string list" where
  "iterkeys events = Inl (AttributeError ''iterkeys'')"

text \<open>\<^verbatim>\<open>not events\<close>: an empty dictionary or an empty list.\<close>

definition is_empty :: "all_events \<Rightarrow> world \<Rightarrow> bool" where
  "is_empty events st = (case events of EventList r \<Rightarrow> lists st r = [] | ByDate m \<Rightarrow> m = [])"

definition items_of :: "all_events \<Rightarrow> world \<Rightarrow> (string \<times> entry) list" where
  "items_of events st =
     (case events of EventList r \<Rightarrow> [] | ByDate m \<Rightarrow> m)"

definition sync_comment :: "issue \<Rightarrow> string" where
  "sync_comment source = ''Synchronized from [this original issue]('' @ get_url source @ '')''"

definition apply_changelog :: "api \<Rightarrow> ref \<Rightarrow> ref \<Rightarrow> world \<Rightarrow> (error + unit) \<times> world" where
  "apply_changelog srv target_issue source_issue st =
     (case has_changelog srv target_issue st of
        (Inl e, st1) \<Rightarrow> (Inl e, st1)
      | (Inr True, st1) \<Rightarrow> (Inr (), logger_error CannotApplyToIssueWithChangelog st1)
      | (Inr False, st1) \<Rightarrow>
     (case get_all_events srv source_issue True st1 of
        (Inl e, st2) \<Rightarrow> (Inl e, st2)
      | (Inr events, st2) \<Rightarrow>
          if is_empty events st2 then (Inr (), st2)
          else
            (let st3 = add_comment target_issue (Some (sync_comment (objs st2 source_issue))) st2
             in case iterkeys events of
                  Inl e \<Rightarrow> (Inl e, st3)
                | Inr ks \<Rightarrow> replay target_issue (items_of events st3) (sort ks) st3)))"

section \<open>Sibling search\<close>

definition same_general_attributes :: "issue \<Rightarrow> issue \<Rightarrow> bool" where
  "same_general_attributes self another_issue =
     (rule self = rule another_issue \<and> hash self = hash another_issue \<and>
      message self = message another_issue)"

definition identical_to :: "issue \<Rightarrow> issue \<Rightarrow> bool \<Rightarrow> bool" where
  "identical_to self another_issue ignore_component =
     (if \<not> same_general_attributes self another_issue \<or>
         (component self \<noteq> component another_issue \<and> \<not> ignore_component) then False
      else if \<not> is_hotspot self \<and> \<not> is_hotspot another_issue \<and>
              debt self \<noteq> debt another_issue then False
      else True)"

text \<open>
  The loop of \<^verbatim>\<open>search_siblings\<close>, with the list \<^verbatim>\<open>siblings\<close> built so far.
  \<^verbatim>\<open>not only_new_issues or (only_new_issues and not issue.has_changelog())\<close> asks for
  the changelog only when \<^verbatim>\<open>only_new_issues\<close> is set.
\<close>

fun siblings_loop ::
  "api \<Rightarrow> ref \<Rightarrow> bool \<Rightarrow> bool \<Rightarrow> ref list \<Rightarrow> ref list \<Rightarrow> world \<Rightarrow> (error + ref list) \<times> world"
where
  "siblings_loop srv an_issue only_new_issues check_component [] siblings st = (Inr siblings, st)"
| "siblings_loop srv an_issue only_new_issues check_component (i # issue_list) siblings st =
     (if \<not> identical_to (objs st i) (objs st an_issue) (\<not> check_component)
      then siblings_loop srv an_issue only_new_issues check_component issue_list siblings st
      else if \<not> only_new_issues
      then siblings_loop srv an_issue only_new_issues check_component issue_list (siblings @ [i]) st
      else (case has_changelog srv i st of
              (Inl e, st1) \<Rightarrow> (Inl e, st1)
            | (Inr b, st1) \<Rightarrow>
                if \<not> b
                then siblings_loop srv an_issue only_new_issues check_component issue_list
                       (siblings @ [i]) st1
                else siblings_loop srv an_issue only_new_issues check_component issue_list
                       siblings st1))"

definition search_siblings ::
  "api \<Rightarrow> ref \<Rightarrow> ref list \<Rightarrow> bool \<Rightarrow> bool \<Rightarrow> world \<Rightarrow> (error + ref list) \<times> world"
where
  "search_siblings srv an_issue issue_list only_new_issues check_component st =
     siblings_loop srv an_issue only_new_issues check_component issue_list [] st"

text \<open>
  Every list reference held by an issue was handed out by the allocator: the state of
  a program whose lists all come from \<^verbatim>\<open>self.changelog = []\<close>.
\<close>

definition heap_ok :: "world \<Rightarrow> bool" where
  "heap_ok st = (\<forall>i. case changelog (objs st i) of None \<Rightarrow> True | Some r \<Rightarrow> r < fresh st)"

section \<open>Matching score\<close>

text \<open>
  Python's \<^verbatim>\<open>float\<close> is IEEE 754 binary64. Every finite float is a rational number,
  and the result of an arithmetic operation is the exact result rounded to the nearest
  float, ties to the even mantissa. \<open>pow2 k\<close> is \<open>2\<^sup>k\<close> for an integer \<open>k\<close>.
\<close>

definition pow2 :: "int \<Rightarrow> rat" where
  "pow2 k = (if 0 \<le> k then 2 ^ nat k else 1 / 2 ^ nat (- k))"

definition round_half_even :: "rat \<Rightarrow> int" where
  "round_half_even q =
     (let f = \<lfloor>q\<rfloor>; r = q - of_int f
      in if r < 1 / 2 then f else if 1 / 2 < r then f + 1 else if even f then f else f + 1)"

text \<open>
  The binary exponent of a positive number \<open>a\<close>: the \<open>e\<close> with
  \<open>2\<^sup>e \<le> a < 2\<^sup>e\<^sup>+\<^sup>1\<close>, searched upwards from 0 for \<open>a \<ge> 1\<close> (up to 1023,
  the largest binary64 exponent) and downwards otherwise, down to \<open>-1022\<close>, the
  exponent all subnormal numbers share.
\<close>

fun exponent_up :: "nat \<Rightarrow> int \<Rightarrow> rat \<Rightarrow> int" where
  "exponent_up 0 e a = e"
| "exponent_up (Suc n) e a = (if pow2 (e + 1) \<le> a then exponent_up n (e + 1) a else e)"

fun exponent_down :: "nat \<Rightarrow> int \<Rightarrow> rat \<Rightarrow> int" where
  "exponent_down 0 e a = e"
| "exponent_down (Suc n) e a = (if pow2 e \<le> a then e else exponent_down n (e - 1) a)"

definition exponent :: "rat \<Rightarrow> int" where
  "exponent a = (if 1 \<le> a then exponent_up 1023 0 a else exponent_down 1022 0 a)"

text \<open>
  \<open>fl q\<close> is the float nearest to \<open>q\<close>: the mantissa \<open>a / u\<close>, in units \<open>u\<close> of the
  last of 53 bits, rounded to an integer. It is what Python makes of a decimal literal
  (\<open>fl (1 / 10)\<close> is \<^verbatim>\<open>0.1\<close>) and of the exact result of an operation. Overflow to
  infinity is not modelled; the values below stay between 0 and 1.
\<close>

definition fl :: "rat \<Rightarrow> rat" where
  "fl q =
     (if q = 0 then 0
      else (let a = \<bar>q\<bar>; u = pow2 (exponent a - 52)
            in sgn q * of_int (round_half_even (a / u)) * u))"

definition fsub :: "rat \<Rightarrow> rat \<Rightarrow> rat" where
  "fsub x y = fl (x - y)"

text \<open>
  \<^verbatim>\<open>Issue.match\<close>. \<^verbatim>\<open>match_level\<close> starts as the integer 0 or 1;
  \<^verbatim>\<open>match_level -= 0.1\<close> converts it to a float and subtracts the float
  \<^verbatim>\<open>0.1\<close>. The result is given as the rational number it denotes.
\<close>

definition match :: "issue \<Rightarrow> issue \<Rightarrow> rat" where
  "match self another_issue =
     (if rule self \<noteq> rule another_issue \<or> hash self \<noteq> hash another_issue then 0
      else (let m0 = 1;
                m1 = (if component self \<noteq> component another_issue then fsub m0 (fl (1 / 10)) else m0);
                m2 = (if message self \<noteq> message another_issue then fsub m1 (fl (1 / 10)) else m1);
                m3 = (if debt self \<noteq> debt another_issue then fsub m2 (fl (1 / 10)) else m2)
            in m3))"

section \<open>Example inputs\<close>

text \<open>Concrete issues, states and servers on which the theorems below are run.\<close>

definition sample :: issue where
  "sample = \<lparr>env = ''https://sq'', key = ''A'', itype = ''BUG'', severity = Some ''MAJOR'',
     status = ''OPEN'', rule = ''S1234'', project = ''P'', component = ''f1'',
     hash = Some ''abc'', message = Some ''m'', debt = Some ''10min'', line = Some 3,
     creation_date = ''2020-01-02T10:11:12+0100'',
     modification_date = ''2020-02-03T11:12:13+0100'',
     json_comments = None, changelog = None, comments = None\<rparr>"

definition hello :: comment where
  "hello = \<lparr>createdAt = ''2020-03-01T08:00:00+0000'', markdown = ''hello''\<rparr>"

definition again :: comment where
  "again = \<lparr>createdAt = ''2020-03-01T08:00:00+0000'', markdown = ''again''\<rparr>"

text \<open>
  Issue 0 (key T) has neither changelog nor comments fetched yet; issues 1 (key S) and
  2 (key C) carry one comment; issue 3 (key D) carries two comments written in the
  same second; issue 4 (key U) has no comment.
\<close>

definition heap0 :: world where
  "heap0 = \<lparr>objs = (\<lambda>r. sample)
               (0 := sample\<lparr>key := ''T''\<rparr>,
                1 := sample\<lparr>key := ''S'', json_comments := Some [hello]\<rparr>,
                2 := sample\<lparr>key := ''C'', json_comments := Some [hello]\<rparr>,
                3 := sample\<lparr>key := ''D'', json_comments := Some [hello, again]\<rparr>,
                4 := sample\<lparr>key := ''U''\<rparr>),
             lists = (\<lambda>r. []), fresh = 0, posted = [], errors = []\<rparr>"

text \<open>A server on which no issue has a changelog.\<close>

definition no_history :: api where
  "no_history ps e k = []"

text \<open>
  A server on which issue T had its severity changed once, and issue U had its line
  changed once (a diff no normalization rule recognizes).
\<close>

definition one_change :: api where
  "one_change ps e k =
     (if k = ''T''
      then [\<lparr>creationDate = ''2020-02-01T09:00:00+0000'',
             diffs = [[''key'' \<mapsto> ''severity'', ''newValue'' \<mapsto> ''BLOCKER'']]\<rparr>]
      else if k = ''U''
      then [\<lparr>creationDate = ''2020-02-05T09:00:00+0000'',
             diffs = [[''key'' \<mapsto> ''line'', ''newValue'' \<mapsto> ''12'']]\<rparr>]
      else [])"

text \<open>The two issues of the scenario of the specification.\<close>

definition issue_a :: issue where
  "issue_a = sample\<lparr>rule := ''S1234'', hash := Some ''abc'', component := ''f1'',
                     message := Some ''m'', debt := Some ''10min''\<rparr>"

definition issue_b :: issue where
  "issue_b = sample\<lparr>rule := ''S1234'', hash := Some ''abc'', component := ''f2'',
                     message := Some ''m2'', debt := Some ''5min''\<rparr>"

section \<open>Properties of the float arithmetic\<close>

lemma tenth: "fl (1 / 10) = 3602879701896397 / 36028797018963968"
  by code_simp

lemma fsub_one: "fsub 1 (3602879701896397 / 36028797018963968) = 8106479329266893 / 9007199254740992"
  by code_simp

lemma fsub_two:
  "fsub (8106479329266893 / 9007199254740992) (3602879701896397 / 36028797018963968) =
     3602879701896397 / 4503599627370496"
  by code_simp

lemma fsub_three:
  "fsub (3602879701896397 / 4503599627370496) (3602879701896397 / 36028797018963968) =
     6305039478318695 / 9007199254740992"
  by code_simp

lemma seven_tenths: "fl (7 / 10) = 3152519739159347 / 4503599627370496"
  by code_simp

section \<open>Properties of the caches\<close>

lemma fill_changelog_frame:
  "fill_changelog r ls st = (res, st') \<Longrightarrow>
     objs st' = objs st \<and> fresh st' = fresh st \<and> posted st' = posted st \<and>
     errors st' = errors st \<and> (\<forall>q. q \<noteq> r \<longrightarrow> lists st' q = lists st q)"
proof (induction ls arbitrary: st)
  case Nil
  then show ?case by simp
next
  case (Cons l ls)
  show ?case
  proof (cases "diff_to_changelog (diffs l)")
    case (Inl e)
    with Cons.prems show ?thesis by simp
  next
    case (Inr d)
    with Cons.prems have
      "fill_changelog r ls (list_append r \<lparr>event = event d, val = val d, date = creationDate l\<rparr> st) = (res, st')"
      by simp
    from Cons.IH [OF this] show ?thesis by (simp add: list_append_def)
  qed
qed

lemma get_changelog_cached:
  "changelog (objs st self) = Some r \<Longrightarrow> get_changelog srv self False st = (Inr (Some r), st)"
  by (simp add: get_changelog_def)

lemma get_changelog_result:
  assumes "get_changelog srv self f st = (Inr c, st')"
  shows "\<exists>r. c = Some r \<and> changelog (objs st' self) = Some r \<and> posted st' = posted st \<and> errors st' = errors st"
proof (cases "f \<or> changelog (objs st self) = None")
  case True
  define st1 where "st1 = st\<lparr>objs := (objs st)(self := (objs st self)\<lparr>changelog := Some (fresh st)\<rparr>),
                      lists := (lists st)(fresh st := []),
                      fresh := Suc (fresh st)\<rparr>"
  obtain res st2 where f: "fill_changelog (fresh st) (srv (posted st) (env (objs st self)) (key (objs st self))) st1 = (res, st2)"
    by (cases "fill_changelog (fresh st) (srv (posted st) (env (objs st self)) (key (objs st self))) st1")
  from fill_changelog_frame [OF f] have fr: "objs st2 = objs st1" "posted st2 = posted st1" "errors st2 = errors st1"
    by simp_all
  from assms True f have "res = Inr () \<and> c = changelog (objs st2 self) \<and> st' = st2"
    unfolding get_changelog_def Let_def st1_def [symmetric]
    by (auto split: sum.splits)
  with fr show ?thesis by (simp add: st1_def)
next
  case False
  with assms show ?thesis by (auto simp: get_changelog_def)
qed

lemma has_changelog_cached:
  "changelog (objs st self) = Some r \<Longrightarrow>
     has_changelog srv self st = (Inr (lists st r \<noteq> []), st)"
  by (simp add: has_changelog_def get_changelog_cached len_def)

lemma has_changelog_result:
  assumes "has_changelog srv self st = (Inr b, st')"
  shows "\<exists>r. changelog (objs st' self) = Some r \<and> b = (lists st' r \<noteq> []) \<and>
           posted st' = posted st \<and> errors st' = errors st"
proof -
  obtain x st1 where g1: "get_changelog srv self False st = (x, st1)"
    by (cases "get_changelog srv self False st")
  with assms obtain c1 where x: "x = Inr c1"
    by (cases x) (auto simp: has_changelog_def)
  from get_changelog_result [OF g1 [unfolded x]] obtain r where
    r: "c1 = Some r" "changelog (objs st1 self) = Some r" "posted st1 = posted st" "errors st1 = errors st"
    by blast
  from assms g1 x r have "b = (lists st1 r \<noteq> [])" "st' = st1"
    by (auto simp: has_changelog_def get_changelog_cached len_def)
  with r show ?thesis by blast
qed

lemma append_all_eq:
  "append_all r cs st = st\<lparr>lists := (lists st)(r := lists st r @ cs)\<rparr>"
  by (induction cs arbitrary: st) (simp_all add: list_append_def)


lemma get_comments_frame:
  assumes "get_comments self st = (cs, st1)"
  shows "lists st1 = lists st \<and> changelog (objs st1 i) = changelog (objs st i) \<and> posted st1 = posted st \<and> errors st1 = errors st \<and> fresh st1 = fresh st"
  using assms by (auto simp: get_comments_def split: option.splits)

lemma bydate_of_keys:
  "fst ` set (bydate_of es m) = fst ` set m \<union> date ` set es"
  by (induction es arbitrary: m) (auto simp: dom_update [unfolded image_def] image_def dom_update)

lemma bydate_of_distinct:
  "distinct (map fst m) \<Longrightarrow> distinct (map fst (bydate_of es m))"
  by (induction es arbitrary: m) (simp_all add: distinct_update)

lemma bydate_of_map_of:
  "map_of (bydate_of es m) d =
     (if d \<in> date ` set es then Some (last (filter (\<lambda>x. date x = d) es)) else map_of m d)"
proof (induction es arbitrary: m)
  case Nil
  then show ?case by simp
next
  case (Cons e es)
  show ?case
    by (auto simp: Cons.IH update_conv' filter_empty_conv image_iff)
qed

lemma bydate_of_length:
  "length (bydate_of es []) = card (date ` set es)"
proof -
  have "distinct (map fst (bydate_of es []))" by (simp add: bydate_of_distinct)
  then have "length (map fst (bydate_of es [])) = card (set (map fst (bydate_of es [])))"
    by (simp only: distinct_card)
  then show ?thesis by (simp add: bydate_of_keys)
qed

lemma bydate_of_shorter:
  assumes "\<not> distinct (map date es)"
  shows "length (bydate_of es []) < length es"
proof -
  have "card (set (map date es)) \<le> length (map date es)" by (rule card_length)
  moreover have "card (set (map date es)) \<noteq> length (map date es)"
    using assms card_distinct by blast
  ultimately show ?thesis by (simp add: bydate_of_length)
qed

section \<open>Properties of the sibling search\<close>

lemma get_changelog_keeps:
  assumes ok: "heap_ok st" and g: "get_changelog srv i False st = (res, st')"
  shows "heap_ok st' \<and>
         (\<forall>j q. changelog (objs st j) = Some q \<longrightarrow>
                 changelog (objs st' j) = Some q \<and> lists st' q = lists st q) \<and>
         (\<forall>j. (objs st' j)\<lparr>changelog := None\<rparr> = (objs st j)\<lparr>changelog := None\<rparr>)"
proof (cases "changelog (objs st i)")
  case (Some r)
  with g ok show ?thesis by (simp add: get_changelog_cached)
next
  case None
  define st1 where "st1 = st\<lparr>objs := (objs st)(i := (objs st i)\<lparr>changelog := Some (fresh st)\<rparr>),
                      lists := (lists st)(fresh st := []),
                      fresh := Suc (fresh st)\<rparr>"
  obtain x st2 where f: "fill_changelog (fresh st) (srv (posted st) (env (objs st i)) (key (objs st i))) st1 = (x, st2)"
    by (cases "fill_changelog (fresh st) (srv (posted st) (env (objs st i)) (key (objs st i))) st1")
  from fill_changelog_frame [OF f] have fr: "objs st2 = objs st1" "fresh st2 = fresh st1"
    "\<And>q. q \<noteq> fresh st \<Longrightarrow> lists st2 q = lists st1 q"
    by simp_all
  from g None f have st': "st' = st2"
    unfolding get_changelog_def Let_def st1_def [symmetric]
    by (auto split: sum.splits)
  have lt: "q < fresh st" if "changelog (objs st j) = Some q" for j q
    using ok that unfolding heap_ok_def by (metis option.simps(5))
  have "heap_ok st2"
    unfolding heap_ok_def fr st1_def using lt by (auto split: option.splits simp: less_Suc_eq)
  moreover have "changelog (objs st2 j) = Some q \<and> lists st2 q = lists st q"
    if "changelog (objs st j) = Some q" for j q
  proof -
    from that None have "j \<noteq> i" by auto
    moreover from lt [OF that] have "q \<noteq> fresh st" by simp
    ultimately show ?thesis using that fr by (simp add: st1_def)
  qed
  moreover have "(objs st2 j)\<lparr>changelog := None\<rparr> = (objs st j)\<lparr>changelog := None\<rparr>" for j
    by (simp add: fr st1_def)
  ultimately show ?thesis unfolding st' by blast
qed

lemma has_changelog_unfold:
  assumes "has_changelog srv self st = (Inr b, st')"
  shows "\<exists>r. get_changelog srv self False st = (Inr (Some r), st') \<and> b = (lists st' r \<noteq> [])"
proof -
  obtain x st1 where g1: "get_changelog srv self False st = (x, st1)"
    by (cases "get_changelog srv self False st")
  with assms obtain c1 where x: "x = Inr c1"
    by (cases x) (auto simp: has_changelog_def)
  from get_changelog_result [OF g1 [unfolded x]] obtain r where
    r: "c1 = Some r" "changelog (objs st1 self) = Some r"
    by blast
  from assms g1 x r have "b = (lists st1 r \<noteq> [])" "st' = st1"
    by (auto simp: has_changelog_def get_changelog_cached len_def)
  with r g1 x show ?thesis by blast
qed

lemma identical_to_cache:
  "identical_to a b c = identical_to (a\<lparr>changelog := None\<rparr>) (b\<lparr>changelog := None\<rparr>) c"
  by (simp add: identical_to_def same_general_attributes_def is_hotspot_def)

lemma siblings_loop_inv:
  assumes "siblings_loop srv an only_new cc pool acc st = (Inr sibs, st')"
    and "heap_ok st"
    and "only_new \<longrightarrow> (\<forall>i\<in>set acc. \<exists>r. changelog (objs st i) = Some r \<and> lists st r = [])"
    and "\<forall>i\<in>set acc. identical_to (objs st i) (objs st an) (\<not> cc)"
  shows "\<exists>new. sibs = acc @ new \<and> subseq new pool \<and>
           (only_new \<longrightarrow> (\<forall>i\<in>set sibs. \<exists>r. changelog (objs st' i) = Some r \<and> lists st' r = [])) \<and>
           (\<forall>i\<in>set sibs. identical_to (objs st' i) (objs st' an) (\<not> cc))"
  using assms
proof (induction pool arbitrary: acc st)
  case Nil
  then show ?case by simp
next
  case (Cons i pool)
  show ?case
  proof (cases "identical_to (objs st i) (objs st an) (\<not> cc)")
    case False
    with Cons.prems(1) have "siblings_loop srv an only_new cc pool acc st = (Inr sibs, st')"
      by simp
    from Cons.IH [OF this Cons.prems(2,3,4)] obtain new where
      "sibs = acc @ new" "subseq new pool"
      "only_new \<longrightarrow> (\<forall>i\<in>set sibs. \<exists>r. changelog (objs st' i) = Some r \<and> lists st' r = [])"
      "\<forall>i\<in>set sibs. identical_to (objs st' i) (objs st' an) (\<not> cc)"
      by blast
    then show ?thesis by (blast intro: subseq_Cons')  
  next
    case ident: True
    show ?thesis
    proof (cases only_new)
      case False
      with ident Cons.prems(1) have l: "siblings_loop srv an only_new cc pool (acc @ [i]) st = (Inr sibs, st')"
        by simp
      have "\<forall>j\<in>set (acc @ [i]). identical_to (objs st j) (objs st an) (\<not> cc)"
        using Cons.prems(4) ident by simp
      from Cons.IH [OF l Cons.prems(2) _ this] False obtain new where
        n: "sibs = (acc @ [i]) @ new" "subseq new pool"
        "\<forall>i\<in>set sibs. identical_to (objs st' i) (objs st' an) (\<not> cc)"
        by blast
      then have "sibs = acc @ (i # new)" "subseq (i # new) (i # pool)" by simp_all
      with n(3) False show ?thesis by blast
    next
      case True
      obtain x st1 where h: "has_changelog srv i st = (x, st1)"
        by (cases "has_changelog srv i st")
      with True ident Cons.prems(1) obtain b where x: "x = Inr b"
        by (cases x) auto
      from has_changelog_unfold [OF h [unfolded x]] obtain r where
        g: "get_changelog srv i False st = (Inr (Some r), st1)" and b: "b = (lists st1 r \<noteq> [])"
        by blast
      from get_changelog_keeps [OF Cons.prems(2) g] have
        ok1: "heap_ok st1"
        and keep: "\<And>j q. changelog (objs st j) = Some q \<Longrightarrow>
                 changelog (objs st1 j) = Some q \<and> lists st1 q = lists st q"
        and same: "\<And>j. (objs st1 j)\<lparr>changelog := None\<rparr> = (objs st j)\<lparr>changelog := None\<rparr>"
        by blast+
      from get_changelog_result [OF g] have ri: "changelog (objs st1 i) = Some r" by simp
      have id1: "identical_to (objs st1 j) (objs st1 an) (\<not> cc) = identical_to (objs st j) (objs st an) (\<not> cc)" for j
        by (metis identical_to_cache same)
      have acc1: "\<forall>j\<in>set acc. \<exists>r. changelog (objs st1 j) = Some r \<and> lists st1 r = []"
        using Cons.prems(3) True keep by metis
      have accid: "\<forall>j\<in>set acc. identical_to (objs st1 j) (objs st1 an) (\<not> cc)"
        using Cons.prems(4) id1 by simp
      show ?thesis
      proof (cases b)
        case False
        with True ident Cons.prems(1) h x
        have l: "siblings_loop srv an only_new cc pool (acc @ [i]) st1 = (Inr sibs, st')"
          by simp
        have a: "only_new \<longrightarrow> (\<forall>j\<in>set (acc @ [i]). \<exists>r. changelog (objs st1 j) = Some r \<and> lists st1 r = [])"
          using acc1 ri b False by auto
        have c: "\<forall>j\<in>set (acc @ [i]). identical_to (objs st1 j) (objs st1 an) (\<not> cc)"
          using accid ident id1 by simp
        from Cons.IH [OF l ok1 a c] obtain new where
          n: "sibs = (acc @ [i]) @ new" "subseq new pool"
          "only_new \<longrightarrow> (\<forall>i\<in>set sibs. \<exists>r. changelog (objs st' i) = Some r \<and> lists st' r = [])"
          "\<forall>i\<in>set sibs. identical_to (objs st' i) (objs st' an) (\<not> cc)"
          by blast
        then have "sibs = acc @ (i # new)" "subseq (i # new) (i # pool)" by simp_all
        with n(3,4) show ?thesis by blast
      next
        case bt: True
        with True ident Cons.prems(1) h x
        have l: "siblings_loop srv an only_new cc pool acc st1 = (Inr sibs, st')"
          by simp
        from Cons.IH [OF l ok1 _ accid] acc1 obtain new where
          "sibs = acc @ new" "subseq new pool"
          "only_new \<longrightarrow> (\<forall>i\<in>set sibs. \<exists>r. changelog (objs st' i) = Some r \<and> lists st' r = [])"
          "\<forall>i\<in>set sibs. identical_to (objs st' i) (objs st' an) (\<not> cc)"
          by blast
        then show ?thesis by (blast intro: subseq_Cons')
      qed
    qed
  qed
qed


section \<open>The claims\<close>

text \<open>
  C1. The claim: \<^verbatim>\<open>match\<close> returns 0.7 when rule and hash are equal and component,
  message and debt all differ. The code computes \<^verbatim>\<open>1 - 0.1 - 0.1 - 0.1\<close> in binary64
  arithmetic, which is \<^verbatim>\<open>0.7000000000000001\<close>: neither the number 7/10 nor the float
  \<^verbatim>\<open>0.7\<close>. The issues are those of the scenario of the specification.
\<close>

theorem match_not_seven_tenths:
  "match issue_a issue_b \<noteq> 7 / 10 \<and> match issue_a issue_b \<noteq> fl (7 / 10)"
  by (simp add: match_def issue_a_def issue_b_def sample_def tenth fsub_one fsub_two fsub_three
      seven_tenths)

text \<open>
  C1, as amended. For every pair of issues, \<^verbatim>\<open>match\<close> returns 0 when rule or hash
  differ, whatever the other fields; 1 when rule, hash, component, message and debt are
  all equal; and the float \<^verbatim>\<open>0.7000000000000001\<close>, that is
  \<open>6305039478318695 / 2\<^sup>5\<^sup>3\<close>, when rule and hash are equal and component, message and
  debt all differ. The result always lies between 0 and 1.
\<close>

theorem match_levels:
  "(rule a \<noteq> rule b \<or> hash a \<noteq> hash b \<longrightarrow> match a b = 0)
   \<and> (rule a = rule b \<and> hash a = hash b \<and> component a = component b \<and>
      message a = message b \<and> debt a = debt b \<longrightarrow> match a b = 1)
   \<and> (rule a = rule b \<and> hash a = hash b \<and> component a \<noteq> component b \<and>
      message a \<noteq> message b \<and> debt a \<noteq> debt b \<longrightarrow>
        match a b = 6305039478318695 / 9007199254740992)
   \<and> 0 \<le> match a b \<and> match a b \<le> 1"
  by (simp add: match_def tenth fsub_one fsub_two fsub_three)

theorem match_levels_witness:
  "match issue_a issue_b = 6305039478318695 / 9007199254740992
   \<and> match issue_a issue_a = 1
   \<and> match issue_a (issue_b\<lparr>rule := ''S99''\<rparr>) = 0
   \<and> 0 \<le> match issue_a issue_b \<and> match issue_a issue_b \<le> 1"
  using match_levels [of issue_a issue_b] match_levels [of issue_a issue_a]
    match_levels [of issue_a "issue_b\<lparr>rule := ''S99''\<rparr>"]
  by (simp add: issue_a_def issue_b_def sample_def)

text \<open>
  C2. A diff set whose first diff is an assignee diff. The claim: with a
  \<^verbatim>\<open>newValue\<close> the normalizer returns an assign event carrying it, without one it
  returns an unassign event and does not raise. The code: \<^verbatim>\<open>assignee_diff_to_changelog\<close>
  tests \<^verbatim>\<open>d['newValue'] in d\<close>, that is whether the new assignee is the name of a
  key of the diff, so \<^verbatim>\<open>{'key': 'assignee', 'newValue': 'alice'}\<close> normalizes to an
  unassign event; and \<^verbatim>\<open>get_event_from_diff\<close> reads \<^verbatim>\<open>diff['newValue']\<close> before
  anything else, so \<^verbatim>\<open>{'key': 'assignee', 'oldValue': 'alice'}\<close> raises
  \<^verbatim>\<open>KeyError\<close>.
\<close>

theorem assignee_diff_failing_inputs:
  "diff_to_changelog [[''key'' \<mapsto> ''assignee'', ''newValue'' \<mapsto> ''alice'']] =
     Inr \<lparr>event = ''unassign'', val = None\<rparr>
   \<and> diff_to_changelog [[''key'' \<mapsto> ''assignee'', ''oldValue'' \<mapsto> ''alice'']] =
     Inl (KeyError ''newValue'')"
  by (simp add: get_event_from_diff_def subscript_def in_dict_def ev_status_reopened_def
      ev_status_open_def ev_assignee_def ev_branch_def ev_effort_def
      assignee_diff_to_changelog_def)

text \<open>
  C3. The claim: with the only-new flag set, \<^verbatim>\<open>search_siblings\<close> returns no issue
  whose timeline (changelog plus comments) is non-empty. The code asks
  \<^verbatim>\<open>issue.has_changelog()\<close>, which does not look at comments: issue 2, identical to
  the target and carrying one comment, is returned, and its timeline is non-empty.
\<close>

theorem search_siblings_counterexample:
  "fst (search_siblings no_history 0 [2] True False heap0) = Inr [2]
   \<and> fst (get_all_events no_history 2 True (snd (search_siblings no_history 0 [2] True False heap0))) =
       Inr (ByDate [(''2020-03-01T08:00:00+0000'', comment_entry hello)])"
  by (simp add: search_siblings_def identical_to_def same_general_attributes_def is_hotspot_def
      has_changelog_def get_changelog_def heap0_def sample_def no_history_def len_def
      get_all_events_def get_comments_def list_append_def comment_entry_def hello_def)

text \<open>
  C3, as amended. When \<^verbatim>\<open>search_siblings\<close> returns, the siblings are a subsequence
  of the pool (same relative order), each is \<^verbatim>\<open>identical_to\<close> the target, and with
  the only-new flag set \<^verbatim>\<open>has_changelog()\<close> is false of each of them: none has a
  changelog entry. Comments are not looked at.
\<close>

theorem search_siblings_only_new_in_order:
  assumes "search_siblings srv an_issue issue_list only_new_issues check_component st = (Inr siblings, st')"
    and "heap_ok st"
  shows "subseq siblings issue_list
       \<and> (\<forall>i\<in>set siblings. identical_to (objs st' i) (objs st' an_issue) (\<not> check_component))
       \<and> (only_new_issues \<longrightarrow> (\<forall>i\<in>set siblings. has_changelog srv i st' = (Inr False, st')))"
proof -
  from siblings_loop_inv [OF assms(1) [unfolded search_siblings_def] assms(2)]
  obtain new where n: "siblings = [] @ new" "subseq new issue_list"
    "only_new_issues \<longrightarrow> (\<forall>i\<in>set siblings. \<exists>r. changelog (objs st' i) = Some r \<and> lists st' r = [])"
    "\<forall>i\<in>set siblings. identical_to (objs st' i) (objs st' an_issue) (\<not> check_component)"
    by auto
  have "has_changelog srv i st' = (Inr False, st')"
    if "only_new_issues" "i \<in> set siblings" for i
  proof -
    from n(3) that obtain r where "changelog (objs st' i) = Some r" "lists st' r = []" by blast
    then show ?thesis by (simp add: has_changelog_cached)
  qed
  with n show ?thesis by simp
qed

theorem search_siblings_only_new_in_order_witness:
  "fst (search_siblings one_change 4 [2, 0, 1] True False heap0) = Inr [2, 1]
   \<and> subseq [2, 1] [2, 0, 1 :: nat]
   \<and> fst (has_changelog one_change 2 (snd (search_siblings one_change 4 [2, 0, 1] True False heap0))) = Inr False
   \<and> fst (has_changelog one_change 1 (snd (search_siblings one_change 4 [2, 0, 1] True False heap0))) = Inr False
   \<and> fst (has_changelog one_change 0 (snd (search_siblings one_change 4 [2, 0, 1] True False heap0))) = Inr True"
proof -
  let ?st' = "snd (search_siblings one_change 4 [2, 0, 1] True False heap0)"
  have f: "fst (search_siblings one_change 4 [2, 0, 1] True False heap0) = Inr [2, 1]"
    by (simp add: search_siblings_def identical_to_def same_general_attributes_def is_hotspot_def
      has_changelog_def get_changelog_def heap0_def sample_def one_change_def len_def
      list_append_def get_event_from_diff_def subscript_def in_dict_def
      ev_status_reopened_def ev_status_open_def ev_assignee_def ev_branch_def ev_effort_def)
  then have s: "search_siblings one_change 4 [2, 0, 1] True False heap0 = (Inr [2, 1], ?st')"
    by (simp add: prod_eq_iff)
  have ok: "heap_ok heap0" by (simp add: heap_ok_def heap0_def sample_def)
  have t: "fst (has_changelog one_change 0 ?st') = Inr True"
    by (simp add: search_siblings_def identical_to_def same_general_attributes_def is_hotspot_def
      has_changelog_def get_changelog_def heap0_def sample_def one_change_def len_def
      list_append_def get_event_from_diff_def subscript_def in_dict_def
      ev_status_reopened_def ev_status_open_def ev_assignee_def ev_branch_def ev_effort_def)
  from search_siblings_only_new_in_order [OF s ok] f t show ?thesis by simp
qed

text \<open>
  C4. The claim: a target with a non-empty timeline (changelog plus comments) makes
  \<^verbatim>\<open>apply_changelog\<close> post nothing, log the refusal and return. The guard of the code
  is \<^verbatim>\<open>target_issue.has_changelog()\<close>, which does not look at comments: on issue 2,
  whose timeline holds one comment and whose changelog is empty, the call goes on and
  posts the introductory comment.
\<close>

theorem apply_changelog_comment_only_target:
  "fst (get_all_events no_history 2 True heap0) =
     Inr (ByDate [(''2020-03-01T08:00:00+0000'', comment_entry hello)])
   \<and> posted (snd (apply_changelog no_history 2 1 heap0)) =
     [(''https://sq'', ''issues/add_comment'',
       [(''issue'', Some ''C''), (''text'', Some (sync_comment (objs heap0 1)))])]"
  by (simp add: apply_changelog_def has_changelog_def get_changelog_def heap0_def sample_def
      no_history_def len_def list_append_def get_all_events_def get_comments_def is_empty_def
      iterkeys_def add_comment_def post_def hello_def comment_entry_def sync_comment_def
      get_url_def)

text \<open>
  C4, as amended. When \<^verbatim>\<open>target_issue.has_changelog()\<close> returns true (the changelog
  of the target, comments not counted, is non-empty and was normalized without an
  exception), \<^verbatim>\<open>apply_changelog\<close> posts no request, logs the refusal and returns
  normally; and a second call on the same target, with any source, is refused in the
  same way.
\<close>

theorem apply_changelog_refuses_target_with_changelog:
  assumes "has_changelog srv target_issue st = (Inr True, st1)"
  shows "apply_changelog srv target_issue source_issue st =
           (Inr (), logger_error CannotApplyToIssueWithChangelog st1)
       \<and> posted (logger_error CannotApplyToIssueWithChangelog st1) = posted st
       \<and> apply_changelog srv target_issue other_source
            (logger_error CannotApplyToIssueWithChangelog st1) =
           (Inr (), logger_error CannotApplyToIssueWithChangelog
                      (logger_error CannotApplyToIssueWithChangelog st1))"
proof -
  from has_changelog_result [OF assms] obtain r where
    r: "changelog (objs st1 target_issue) = Some r" "lists st1 r \<noteq> []" "posted st1 = posted st"
    by blast
  let ?st2 = "logger_error CannotApplyToIssueWithChangelog st1"
  have "changelog (objs ?st2 target_issue) = Some r" "lists ?st2 r \<noteq> []"
    using r by (simp_all add: logger_error_def)
  then have "has_changelog srv target_issue ?st2 = (Inr True, ?st2)"
    by (simp add: has_changelog_cached)
  then show ?thesis using assms r by (simp add: apply_changelog_def logger_error_def)
qed

theorem apply_changelog_refuses_target_with_changelog_witness:
  "fst (has_changelog one_change 0 heap0) = Inr True
   \<and> fst (apply_changelog one_change 0 1 heap0) = Inr ()
   \<and> posted (snd (apply_changelog one_change 0 1 heap0)) = []
   \<and> errors (snd (apply_changelog one_change 0 1 heap0)) = [CannotApplyToIssueWithChangelog]"
proof -
  have f: "fst (has_changelog one_change 0 heap0) = Inr True"
    by (simp add: has_changelog_def get_changelog_def heap0_def sample_def one_change_def
        len_def list_append_def get_event_from_diff_def subscript_def in_dict_def
        ev_status_reopened_def ev_status_open_def ev_assignee_def ev_branch_def ev_effort_def)
  then have h: "has_changelog one_change 0 heap0 = (Inr True, snd (has_changelog one_change 0 heap0))"
    by (simp add: prod_eq_iff)
  have e: "errors (snd (has_changelog one_change 0 heap0)) = []"
    by (simp add: has_changelog_def get_changelog_def heap0_def sample_def one_change_def
        len_def list_append_def get_event_from_diff_def subscript_def in_dict_def
        ev_status_reopened_def ev_status_open_def ev_assignee_def ev_branch_def ev_effort_def)
  let ?st1 = "snd (has_changelog one_change 0 heap0)"
  from apply_changelog_refuses_target_with_changelog [OF h, of 1 1] have
    a: "apply_changelog one_change 0 1 heap0 =
          (Inr (), logger_error CannotApplyToIssueWithChangelog ?st1)"
    and p: "posted (logger_error CannotApplyToIssueWithChangelog ?st1) = posted heap0"
    by blast+
  have "posted heap0 = []" by (simp add: heap0_def)
  with a p e f show ?thesis by (simp add: logger_error_def)
qed

text \<open>
  C5. The claim: for a source with a non-empty timeline and a target without
  changelog, \<^verbatim>\<open>apply_changelog\<close> posts the introductory comment and then replays
  the events in ascending order of their dates. The code posts the introductory comment
  and then evaluates \<^verbatim>\<open>sorted(events.iterkeys())\<close>, which raises
  \<^verbatim>\<open>AttributeError\<close> under Python 3: no event is replayed. Here the source is issue 1,
  whose timeline is one comment.
\<close>

theorem apply_changelog_stops_at_iterkeys:
  "fst (apply_changelog no_history 0 1 heap0) = Inl (AttributeError ''iterkeys'')
   \<and> posted (snd (apply_changelog no_history 0 1 heap0)) =
     [(''https://sq'', ''issues/add_comment'',
       [(''issue'', Some ''T''), (''text'', Some (sync_comment (objs heap0 1)))])]"
  by (simp add: apply_changelog_def has_changelog_def get_changelog_def heap0_def sample_def
      no_history_def len_def list_append_def get_all_events_def get_comments_def is_empty_def
      iterkeys_def add_comment_def post_def hello_def comment_entry_def sync_comment_def
      get_url_def)

text \<open>
  C6. When the changelog entries and the comment events of an issue, taken together,
  hold two events of the same date, the dictionary \<^verbatim>\<open>bydate\<close> that
  \<^verbatim>\<open>get_all_events\<close> returns has strictly fewer entries than that list of events: it
  has one entry for each date, and the entry of a date is the last event of that date.
\<close>

theorem get_all_events_drops_same_date:
  assumes g: "get_changelog srv self False st = (Inr (Some r), st0)"
    and c: "get_comments self st0 = (cs, st1)"
    and dup: "\<not> distinct (map date (lists st0 r @ cs))"
  shows "\<exists>bydate st2.
           get_all_events srv self True st = (Inr (ByDate bydate), st2)
         \<and> lists st2 r = lists st0 r @ cs
         \<and> length bydate < length (lists st0 r @ cs)
         \<and> distinct (map fst bydate)
         \<and> fst ` set bydate = date ` set (lists st0 r @ cs)
         \<and> (\<forall>d e. (d, e) \<in> set bydate \<longrightarrow>
               e = last (filter (\<lambda>x. date x = d) (lists st0 r @ cs)))"
proof -
  let ?st2 = "append_all r cs st1"
  let ?evs = "lists st0 r @ cs"
  from get_comments_frame [OF c, of self] have l1: "lists st1 = lists st0" by simp
  have l2: "lists ?st2 r = ?evs" using l1 by (simp add: append_all_eq)
  have first: "get_all_events srv self True st = (Inr (ByDate (bydate_of ?evs [])), ?st2)"
    using g c l2 by (simp add: get_all_events_def Let_def)
  have d: "distinct (map fst (bydate_of ?evs []))" by (simp add: bydate_of_distinct)
  have last: "e = last (filter (\<lambda>x. date x = k) ?evs)" if "(k, e) \<in> set (bydate_of ?evs [])" for k e
  proof -
    from that d have m: "map_of (bydate_of ?evs []) k = Some e" by simp
    from that have "k \<in> fst ` set (bydate_of ?evs [])" by force
    then have "k \<in> date ` set ?evs" by (simp add: bydate_of_keys)
    with m show ?thesis by (simp only: bydate_of_map_of if_True option.inject)
  qed
  have keys: "fst ` set (bydate_of ?evs []) = date ` set ?evs"
    by (simp add: bydate_of_keys)
  from first l2 bydate_of_shorter [OF dup] d keys last show ?thesis by blast
qed

theorem get_all_events_drops_same_date_witness:
  "fst (get_all_events no_history 3 True heap0) =
     Inr (ByDate [(''2020-03-01T08:00:00+0000'', comment_entry again)])
   \<and> lists (snd (get_all_events no_history 3 True heap0)) 0 =
     [comment_entry hello, comment_entry again]"
proof -
  have g: "get_changelog no_history 3 False heap0 =
      (Inr (Some 0), snd (get_changelog no_history 3 False heap0))"
    by (simp add: get_changelog_def heap0_def sample_def no_history_def)
  have c: "get_comments 3 (snd (get_changelog no_history 3 False heap0)) =
      ([comment_entry hello, comment_entry again],
       snd (get_comments 3 (snd (get_changelog no_history 3 False heap0))))"
    by (simp add: get_changelog_def get_comments_def heap0_def sample_def no_history_def)
  have d: "\<not> distinct (map date (lists (snd (get_changelog no_history 3 False heap0)) 0 @
      [comment_entry hello, comment_entry again]))"
    by (simp add: comment_entry_def hello_def again_def)
  from get_all_events_drops_same_date [OF g c d] obtain bydate st2 where
    r: "get_all_events no_history 3 True heap0 = (Inr (ByDate bydate), st2)"
       "lists st2 0 = lists (snd (get_changelog no_history 3 False heap0)) 0 @
          [comment_entry hello, comment_entry again]"
    by blast
  have "get_all_events no_history 3 True heap0 =
      (Inr (ByDate [(''2020-03-01T08:00:00+0000'', comment_entry again)]),
       snd (get_all_events no_history 3 True heap0))"
    by (simp add: get_all_events_def get_changelog_def get_comments_def heap0_def sample_def
        no_history_def list_append_def comment_entry_def hello_def again_def)
  with r show ?thesis
    by (simp add: get_changelog_def heap0_def sample_def no_history_def)
qed

text \<open>
  C8. The claim: a diff set in which no diff matches a normalization rule is
  normalized to the event \<^verbatim>\<open>unknown\<close> with value \<^verbatim>\<open>None\<close>, and \<^verbatim>\<open>apply_changelog\<close>
  maps such an event to no operation and reports it instead of raising. The code: a diff
  without \<^verbatim>\<open>newValue\<close> makes \<^verbatim>\<open>get_event_from_diff\<close> raise \<^verbatim>\<open>KeyError\<close> whatever
  its key is; and for the source issue 4, whose only event is \<^verbatim>\<open>unknown\<close>,
  \<^verbatim>\<open>apply_changelog\<close> posts its introductory comment and raises
  \<^verbatim>\<open>AttributeError\<close> at \<^verbatim>\<open>events.iterkeys()\<close> before it looks at the event: nothing
  is reported.
\<close>

theorem unknown_diff_failing_inputs:
  "diff_to_changelog [[''key'' \<mapsto> ''line'', ''oldValue'' \<mapsto> ''12'']] = Inl (KeyError ''newValue'')
   \<and> fst (get_all_events one_change 4 True heap0) =
       Inr (ByDate [(''2020-02-05T09:00:00+0000'',
                     \<lparr>event = ''unknown'', val = None, date = ''2020-02-05T09:00:00+0000''\<rparr>)])
   \<and> fst (apply_changelog no_history 0 4 (snd (get_all_events one_change 4 True heap0))) =
       Inl (AttributeError ''iterkeys'')
   \<and> errors (snd (apply_changelog no_history 0 4 (snd (get_all_events one_change 4 True heap0)))) = []"
  by (simp add: apply_changelog_def has_changelog_def get_changelog_def heap0_def sample_def
      no_history_def one_change_def len_def list_append_def get_all_events_def get_comments_def
      is_empty_def iterkeys_def add_comment_def post_def get_event_from_diff_def subscript_def
      in_dict_def ev_status_reopened_def ev_status_open_def ev_assignee_def ev_branch_def
      ev_effort_def)



end
